theory Spec2Isabelle
  imports Complex_Main "HOL-Library.Word"
begin

section \<open>Signal generator: shared data model\<close>

text \<open>
  The repository holds two variants of the same signal generator for the RP2040:
  \<^item> \<^verbatim>\<open>main.c\<close>, the interrupt-driven variant: one GPIO callback serves the waveform
    button and the keypad columns, and \<^verbatim>\<open>handle_input\<close> interprets keys;
  \<^item> the polling variant (the second source file): the keypad is polled by
    \<^verbatim>\<open>getKeypadInput\<close>, the functions \<^verbatim>\<open>readAmplitude\<close>, \<^verbatim>\<open>readFrequency\<close> and
    \<^verbatim>\<open>readDCOffset\<close> collect digits until \<^verbatim>\<open>'D'\<close>, and the button has its own callback.

  C \<^verbatim>\<open>float\<close> and \<^verbatim>\<open>double\<close> values are modelled by \<^typ>\<open>real\<close>: arithmetic is exact. The
  concrete inputs at which the code is shown to differ from a claim use values that
  binary floating point represents and computes exactly (small integers, halves), or a
  result far away from a rounding boundary.
  The 64-bit time stamps are \<^typ>\<open>64 word\<close>, whose subtraction wraps as \<^verbatim>\<open>uint64_t\<close> does.
\<close>

datatype Waveform = SINE | SQUARE | SAWTOOTH | TRIANGULAR

text \<open>The integer value of an enumerator, and the cast \<^verbatim>\<open>(Waveform) n\<close> for \<open>n < 4\<close>.\<close>

fun waveform_code :: "Waveform \<Rightarrow> nat" where
  "waveform_code SINE = 0"
| "waveform_code SQUARE = 1"
| "waveform_code SAWTOOTH = 2"
| "waveform_code TRIANGULAR = 3"

definition waveform_of_code :: "nat \<Rightarrow> Waveform" where
  "waveform_of_code n =
     (if n = 0 then SINE else if n = 1 then SQUARE else if n = 2 then SAWTOOTH else TRIANGULAR)"

text \<open>\<^verbatim>\<open>(Waveform)((w + 1) % 4)\<close>, the expression both variants use.\<close>

definition next_waveform :: "Waveform \<Rightarrow> Waveform" where
  "next_waveform w = waveform_of_code ((waveform_code w + 1) mod 4)"

definition AMPLITUDE_MIN :: real where "AMPLITUDE_MIN = 100.0"
definition AMPLITUDE_MAX :: real where "AMPLITUDE_MAX = 2500.0"
definition FREQUENCY_MIN :: real where "FREQUENCY_MIN = 1"
definition FREQUENCY_MAX :: real where "FREQUENCY_MAX = 12000000"
definition VREF :: real where "VREF = 3.3"
definition ROWS :: nat where "ROWS = 4"
definition COLS :: nat where "COLS = 4"

definition keys :: "char list list" where
  "keys = [''123A'', ''456B'', ''789C'', ''*0#D'']"

text \<open>\<^verbatim>\<open>isdigit(key)\<close>, which is \<^verbatim>\<open>key >= '0' && key <= '9'\<close> on character codes.\<close>

definition isdigit :: "char \<Rightarrow> bool" where
  "isdigit c = (48 \<le> (of_char c :: nat) \<and> (of_char c :: nat) \<le> 57)"

definition NUL :: char where
  "NUL = CHR 0x00"

text \<open>
  \<^verbatim>\<open>strtof(s, NULL)\<close> on the buffers this program builds. The C string ends at the first
  NUL; \<^verbatim>\<open>strtof\<close> converts the longest leading run of decimal digits, and an empty run
  gives 0. No other character (sign, point, exponent, blank) ever reaches a buffer, so
  those parts of \<^verbatim>\<open>strtof\<close> are not modelled. The value is exact up to \<open>2 ^ 24\<close>; above
  it the C function rounds to the nearest \<^verbatim>\<open>float\<close>, which is still an integer.
\<close>

definition digit_val :: "char \<Rightarrow> nat" where
  "digit_val c = of_char c - 48"

definition dec_value :: "char list \<Rightarrow> nat" where
  "dec_value s = foldl (\<lambda>n c. 10 * n + digit_val c) 0 s"

definition strtof :: "char list \<Rightarrow> real" where
  "strtof s = real (dec_value (takeWhile isdigit (takeWhile (\<lambda>c. c \<noteq> NUL) s)))"

text \<open>C's conversion of a floating value to an integer type truncates towards zero.\<close>

definition c_trunc :: "real \<Rightarrow> int" where
  "c_trunc x = (if 0 \<le> x then \<lfloor>x\<rfloor> else \<lceil>x\<rceil>)"

text \<open>\<^verbatim>\<open>fmod(x, y)\<close>: the remainder has the sign of \<open>x\<close>.\<close>

definition c_fmod :: "real \<Rightarrow> real \<Rightarrow> real" where
  "c_fmod x y = x - y * real_of_int (c_trunc (x / y))"

section \<open>The interrupt-driven variant (main.c)\<close>

definition DEBOUNCE_MS :: "64 word" where "DEBOUNCE_MS = 200"
definition DAC_MAX_VALUE :: real where "DAC_MAX_VALUE = 255"
definition M_PI :: real where "M_PI = 3.141592"
definition WAVEFORM_BUTTON_PIN :: nat where "WAVEFORM_BUTTON_PIN = 16"

text \<open>
  The globals of main.c and the two function-local statics (\<^verbatim>\<open>last_interrupt_time\<close> of
  \<^verbatim>\<open>gpio_callback\<close>, \<^verbatim>\<open>last_time\<close> of \<^verbatim>\<open>generate_waveform\<close>). \<^verbatim>\<open>inputBuffer\<close> is the array
  \<^verbatim>\<open>char[20]\<close>, a list of 20 characters; \<^verbatim>\<open>inputIndex\<close> is never negative.
\<close>

record irq_state =
  current_waveform :: Waveform
  amplitude :: real
  frequency :: real
  dc_offset :: real
  paramType :: char
  inputBuffer :: "char list"
  inputIndex :: nat
  last_interrupt_time :: "64 word"
  last_time :: "64 word"

definition irq_init :: irq_state where
  "irq_init = \<lparr> current_waveform = SINE, amplitude = 1000.0, frequency = 10.0,
     dc_offset = 500.0, paramType = NUL, inputBuffer = replicate 20 NUL, inputIndex = 0,
     last_interrupt_time = 0, last_time = 0 \<rparr>"

text \<open>
  \<^verbatim>\<open>handle_input\<close>. On \<^verbatim>\<open>'D'\<close> the buffer is parsed and stored in the selected parameter
  as it is, then \<^verbatim>\<open>inputIndex\<close> is reset and the buffer zeroed (\<^verbatim>\<open>memset\<close>). A selector
  key only sets \<^verbatim>\<open>paramType\<close>. A digit is stored at \<^verbatim>\<open>inputIndex\<close> when
  \<^verbatim>\<open>inputIndex < sizeof(inputBuffer) - 1\<close>, that is below 19.
\<close>

definition handle_input :: "char \<Rightarrow> irq_state \<Rightarrow> irq_state" where
  "handle_input key s =
     (if key = CHR ''D'' then
        (let s1 =
           (if paramType s = CHR ''A'' then s\<lparr>amplitude := strtof (inputBuffer s)\<rparr>
            else if paramType s = CHR ''B'' then s\<lparr>frequency := strtof (inputBuffer s)\<rparr>
            else if paramType s = CHR ''C'' then s\<lparr>dc_offset := strtof (inputBuffer s)\<rparr>
            else s)
         in s1\<lparr>inputIndex := 0, inputBuffer := replicate 20 NUL\<rparr>)
      else if key = CHR ''A'' \<or> key = CHR ''B'' \<or> key = CHR ''C'' then s\<lparr>paramType := key\<rparr>
      else if isdigit key then
        (if inputIndex s < 20 - 1
         then s\<lparr>inputBuffer := (inputBuffer s)[inputIndex s := key],
                 inputIndex := inputIndex s + 1\<rparr>
         else s)
      else s)"

text \<open>A sequence of keys handled one after the other.\<close>

definition handle_inputs :: "char list \<Rightarrow> irq_state \<Rightarrow> irq_state" where
  "handle_inputs ks s = foldl (\<lambda>st k. handle_input k st) s ks"

text \<open>
  The shape of the entry buffer that \<^verbatim>\<open>handle_input\<close> maintains: \<^verbatim>\<open>inputIndex\<close> digits,
  then NUL up to the end of the array.
\<close>

definition buffer_ok :: "irq_state \<Rightarrow> bool" where
  "buffer_ok s =
     (inputIndex s < 20 \<and> length (inputBuffer s) = 20 \<and>
      list_all isdigit (take (inputIndex s) (inputBuffer s)) \<and>
      drop (inputIndex s) (inputBuffer s) = replicate (20 - inputIndex s) NUL)"

text \<open>
  The keypad scan in \<^verbatim>\<open>gpio_callback\<close>: rows are driven low one after the other, and
  every column that reads low gives the key \<^verbatim>\<open>keys[row][col]\<close>. What the pins read is the
  hardware's answer, the parameter \<open>low\<close>: \<open>low row col\<close> says that column \<open>col\<close> reads
  low while row \<open>row\<close> is driven.
\<close>

definition scan_keys :: "(nat \<Rightarrow> nat \<Rightarrow> bool) \<Rightarrow> char list" where
  "scan_keys low =
     concat (map (\<lambda>row. map (\<lambda>col. keys ! row ! col) (filter (low row) [0..<COLS])) [0..<ROWS])"

text \<open>
  \<^verbatim>\<open>gpio_callback(gpio, events)\<close> at the time \<open>now\<close> (milliseconds since boot). One static
  time stamp gates every source: the event is taken when
  \<^verbatim>\<open>current_time - last_interrupt_time > DEBOUNCE_MS\<close> in \<^verbatim>\<open>uint64_t\<close> arithmetic.
\<close>

definition gpio_callback :: "nat \<Rightarrow> 64 word \<Rightarrow> (nat \<Rightarrow> nat \<Rightarrow> bool) \<Rightarrow> irq_state \<Rightarrow> irq_state" where
  "gpio_callback gpio now low s =
     (if now - last_interrupt_time s > DEBOUNCE_MS then
        (let s1 = s\<lparr>last_interrupt_time := now\<rparr> in
         if gpio = WAVEFORM_BUTTON_PIN
         then s1\<lparr>current_waveform := next_waveform (current_waveform s1)\<rparr>
         else handle_inputs (scan_keys low) s1)
      else s)"

text \<open>The \<^verbatim>\<open>switch\<close> of \<^verbatim>\<open>generate_waveform\<close>: the sample for a waveform and a time step.\<close>

fun waveform_value :: "Waveform \<Rightarrow> real \<Rightarrow> real \<Rightarrow> real \<Rightarrow> real \<Rightarrow> real" where
  "waveform_value SINE a f off t = a * (sin (2 * M_PI * f * t) / 2 + 0.5) + off"
| "waveform_value SQUARE a f off t =
     a * (if sin (2 * M_PI * f * t) > 0 then 1 else -1) / 2 + 0.5 + off"
| "waveform_value SAWTOOTH a f off t = a * (2 * c_fmod (f * t) 1 - 1) / 2 + 0.5 + off"
| "waveform_value TRIANGULAR a f off t = a * (1.0 - \<bar>c_fmod (f * t * 4) 4 - 2\<bar>) + off"

text \<open>
  \<^verbatim>\<open>(uint)((value / VREF) * DAC_MAX_VALUE)\<close>. The conversion is defined by C when the
  truncated value fits \<^verbatim>\<open>unsigned int\<close> (32 bits on the RP2040) and undefined otherwise,
  which is \<open>None\<close> here. Nothing bounds the result by 255.
\<close>

definition dac_value :: "real \<Rightarrow> int option" where
  "dac_value v =
     (let x = (v / VREF) * DAC_MAX_VALUE in
      if -1 < x \<and> x < 4294967296 then Some (c_trunc x) else None)"

text \<open>
  \<^verbatim>\<open>generate_waveform\<close> at the time \<open>current_time\<close> (microseconds): the time step since the last
  call, the sample, the DAC code, and the updated static \<^verbatim>\<open>last_time\<close>.
\<close>

definition generate_waveform :: "64 word \<Rightarrow> irq_state \<Rightarrow> (real \<times> int option) \<times> irq_state" where
  "generate_waveform current_time s =
     (let time_step = real (unat (current_time - last_time s)) / 1000000;
          v = waveform_value (current_waveform s) (amplitude s) (frequency s) (dc_offset s) time_step
      in ((v, dac_value v), s\<lparr>last_time := current_time\<rparr>))"

section \<open>The polling variant\<close>

definition DEBOUNCE_DELAY_US :: "64 word" where "DEBOUNCE_DELAY_US = 10000"
definition AMPLITUDE_DEFAULT :: real where "AMPLITUDE_DEFAULT = 100.0"
definition M_PI_poll :: real where "M_PI_poll = 3.14159265358979323846"
definition waveformButtonPin :: nat where "waveformButtonPin = 16"

text \<open>The event mask of a rising edge, \<^verbatim>\<open>GPIO_IRQ_EDGE_RISE\<close> of the Pico SDK.\<close>

definition GPIO_IRQ_EDGE_RISE :: "32 word" where "GPIO_IRQ_EDGE_RISE = 8"

text \<open>
  The globals of the polling variant. Its \<^verbatim>\<open>amplitude\<close> and \<^verbatim>\<open>frequency\<close> carry the suffix
  \<open>_p\<close> here, since main.c has globals of the same names.
\<close>

record poll_state =
  currentWaveform :: Waveform
  amplitude_p :: real
  frequency_p :: real
  dcOffset :: real
  buttonState :: bool
  lastButtonPressTime :: "64 word"

definition poll_init :: poll_state where
  "poll_init = \<lparr> currentWaveform = SINE, amplitude_p = AMPLITUDE_DEFAULT, frequency_p = 10,
     dcOffset = (AMPLITUDE_MIN + AMPLITUDE_MAX) / 2.0, buttonState = False,
     lastButtonPressTime = 0 \<rparr>"

definition changeWaveform :: "poll_state \<Rightarrow> poll_state" where
  "changeWaveform s = s\<lparr>currentWaveform := next_waveform (currentWaveform s)\<rparr>"

text \<open>
  \<^verbatim>\<open>waveformButtonCallback(gpio, events)\<close> at the time \<open>currentTime\<close> (microseconds). The
  time stamp is updated whenever the debounce test passes, whatever the pin and the edge.
\<close>

definition waveformButtonCallback :: "nat \<Rightarrow> 32 word \<Rightarrow> 64 word \<Rightarrow> poll_state \<Rightarrow> poll_state" where
  "waveformButtonCallback gpio events currentTime s =
     (if currentTime - lastButtonPressTime s \<ge> DEBOUNCE_DELAY_US then
        (let s1 = (if gpio = waveformButtonPin \<and> events = GPIO_IRQ_EDGE_RISE
                   then changeWaveform s else s)
         in s1\<lparr>lastButtonPressTime := currentTime\<rparr>)
      else s)"

text \<open>
  The button poll of \<^verbatim>\<open>main\<close>: the pin is read low twice, 50 ms apart, before the
  waveform changes.
\<close>

definition poll_button :: "bool \<Rightarrow> bool \<Rightarrow> poll_state \<Rightarrow> poll_state" where
  "poll_button low1 low2 s = (if low1 \<and> low2 then changeWaveform s else s)"

text \<open>
  A write outside an array is undefined behaviour in C; the model makes it an error
  value that names the array's size and the index written.
\<close>

datatype error = OutOfBounds nat nat

text \<open>
  The loop shared by \<^verbatim>\<open>readAmplitude\<close>, \<^verbatim>\<open>readFrequency\<close> and \<^verbatim>\<open>readDCOffset\<close>:
  \<^verbatim>\<open>while (key != 'D') { key = getKeypadInput(); if (key >= '0' && key <= '9') str[index++] = key; }\<close>
  followed by \<^verbatim>\<open>str[index] = '\0'\<close>. The list is what the successive calls of
  \<^verbatim>\<open>getKeypadInput\<close> return (NUL when no key is down). The loop leaves only on \<^verbatim>\<open>'D'\<close>:
  on a list without it the function has not returned, which is \<open>None\<close>. Neither write
  is guarded in the source, so each is checked against the array here. The result is
  the buffer and the keys not yet read.
\<close>

fun read_digits :: "char list \<Rightarrow> char list \<Rightarrow> nat \<Rightarrow> (error + char list \<times> char list) option" where
  "read_digits [] str index = None"
| "read_digits (key # ks) str index =
     (if isdigit key then
        (if index < length str then read_digits ks (str[index := key]) (index + 1)
         else Some (Inl (OutOfBounds (length str) index)))
      else if key = CHR ''D'' then
        (if index < length str then Some (Inr (str[index := NUL], ks))
         else Some (Inl (OutOfBounds (length str) index)))
      else read_digits ks str index)"

definition readAmplitude :: "char list \<Rightarrow> poll_state \<Rightarrow> (error + poll_state \<times> char list) option" where
  "readAmplitude ks s =
     (case read_digits ks (replicate 16 NUL) 0 of
        None \<Rightarrow> None
      | Some (Inl e) \<Rightarrow> Some (Inl e)
      | Some (Inr (amplitudeStr, rest)) \<Rightarrow>
          Some (Inr (s\<lparr>amplitude_p := min (max (strtof amplitudeStr) AMPLITUDE_MIN) AMPLITUDE_MAX\<rparr>,
                     rest)))"

definition readFrequency :: "char list \<Rightarrow> poll_state \<Rightarrow> (error + poll_state \<times> char list) option" where
  "readFrequency ks s =
     (case read_digits ks (replicate 16 NUL) 0 of
        None \<Rightarrow> None
      | Some (Inl e) \<Rightarrow> Some (Inl e)
      | Some (Inr (frequencyStr, rest)) \<Rightarrow>
          Some (Inr (s\<lparr>frequency_p := min (max (strtof frequencyStr) FREQUENCY_MIN) FREQUENCY_MAX\<rparr>,
                     rest)))"

definition readDCOffset :: "char list \<Rightarrow> poll_state \<Rightarrow> (error + poll_state \<times> char list) option" where
  "readDCOffset ks s =
     (case read_digits ks (replicate 16 NUL) 0 of
        None \<Rightarrow> None
      | Some (Inl e) \<Rightarrow> Some (Inl e)
      | Some (Inr (offsetStr, rest)) \<Rightarrow>
          Some (Inr (s\<lparr>dcOffset := min (max (strtof offsetStr) (AMPLITUDE_MIN / 2.0)) (AMPLITUDE_MAX / 2.0)\<rparr>,
                     rest)))"

text \<open>
  The keypad part of one turn of \<^verbatim>\<open>main\<close>'s loop: the first key read selects the
  function that reads the digits.
\<close>

definition main_keypad :: "char list \<Rightarrow> poll_state \<Rightarrow> (error + poll_state \<times> char list) option" where
  "main_keypad ks s =
     (case ks of
        [] \<Rightarrow> None
      | key # rest \<Rightarrow>
          if key = CHR ''A'' then readAmplitude rest s
          else if key = CHR ''B'' then readFrequency rest s
          else if key = CHR ''C'' then readDCOffset rest s
          else Some (Inr (s, rest)))"

text \<open>
  The \<^verbatim>\<open>switch\<close> in \<^verbatim>\<open>main\<close>'s sampling loop: the sample, in volts, at the time
  \<open>current_time\<close> (microseconds since boot, \<^verbatim>\<open>uint64_t\<close>).
\<close>

fun poll_value :: "Waveform \<Rightarrow> real \<Rightarrow> real \<Rightarrow> real \<Rightarrow> 64 word \<Rightarrow> real" where
  "poll_value SINE a f off ct =
     (a * 0.001 * sin (2.0 * M_PI_poll * f * real (unat ct) / 1000000.0)) + (off * 0.001)"
| "poll_value SQUARE a f off ct =
     (if sin (2.0 * M_PI_poll * f * real (unat ct) / 1000000.0) \<ge> 0.0
      then (a * 0.001) + (off * 0.001)
      else - (a * 0.001) + (off * 0.001))"
| "poll_value SAWTOOTH a f off ct =
     (c_fmod (f * real (unat ct) / 1000000.0) 1.0 * 2.0 - 1.0) * (a * 0.001) + (off * 0.001)"
| "poll_value TRIANGULAR a f off ct =
     (2.0 * \<bar>2.0 * (f * real (unat ct) / 1000000.0
                      - real_of_int \<lfloor>f * real (unat ct) / 1000000.0 + 0.5\<rfloor>)\<bar> - 1.0)
       * (a * 0.001 / 2.0) + (off * 0.001)"

text \<open>
  \<^verbatim>\<open>scaled_value = (value + 1.0f) * 127.5f\<close> and
  \<^verbatim>\<open>(uint8_t)fminf(fmaxf(scaled_value, 0.0f), 255.0f)\<close>.
\<close>

definition scaled_value :: "real \<Rightarrow> real" where
  "scaled_value v = (v + 1.0) * 127.5"

definition poll_dac_value :: "real \<Rightarrow> 8 word" where
  "poll_dac_value v = word_of_int (c_trunc (min (max (scaled_value v) 0.0) 255.0))"

section \<open>Waveform selection\<close>

lemma next_waveform_simps:
  "next_waveform SINE = SQUARE"
  "next_waveform SQUARE = SAWTOOTH"
  "next_waveform SAWTOOTH = TRIANGULAR"
  "next_waveform TRIANGULAR = SINE"
  by (simp_all add: next_waveform_def waveform_of_code_def)

lemma next_waveform_four: "next_waveform (next_waveform (next_waveform (next_waveform w))) = w"
  by (cases w) (simp_all add: next_waveform_simps)

lemma gpio_callback_button_accepted:
  "DEBOUNCE_MS < now - last_interrupt_time s \<Longrightarrow>
     gpio_callback WAVEFORM_BUTTON_PIN now low s =
       s\<lparr>last_interrupt_time := now, current_waveform := next_waveform (current_waveform s)\<rparr>"
  by (simp add: gpio_callback_def Let_def)

lemma gpio_callback_four_presses:
  assumes "DEBOUNCE_MS < t1 - last_interrupt_time s" and "DEBOUNCE_MS < t2 - t1"
    and "DEBOUNCE_MS < t3 - t2" and "DEBOUNCE_MS < t4 - t3"
  shows "current_waveform
           (gpio_callback WAVEFORM_BUTTON_PIN t4 l4
             (gpio_callback WAVEFORM_BUTTON_PIN t3 l3
               (gpio_callback WAVEFORM_BUTTON_PIN t2 l2
                 (gpio_callback WAVEFORM_BUTTON_PIN t1 l1 s)))) = current_waveform s"
  using assms by (simp add: gpio_callback_button_accepted next_waveform_four)

text \<open>
  Claim C4. Each qualifying button event moves the waveform one step along
  SINE, SQUARE, SAWTOOTH, TRIANGULAR, SINE, and four steps give the starting waveform
  back. In main.c the qualifying event is a call of \<^verbatim>\<open>gpio_callback\<close> for the button pin
  that passes the debounce test; in the polling variant it is \<^verbatim>\<open>changeWaveform\<close>, called
  by the button poll of \<^verbatim>\<open>main\<close> and by the button's callback on a rising edge. Four
  button presses that main.c's callback takes one after the other give the starting
  waveform back (lemma \<open>gpio_callback_four_presses\<close>).
\<close>

theorem waveform_advances_cyclically:
  "next_waveform SINE = SQUARE \<and> next_waveform SQUARE = SAWTOOTH \<and>
   next_waveform SAWTOOTH = TRIANGULAR \<and> next_waveform TRIANGULAR = SINE \<and>
   next_waveform (next_waveform (next_waveform (next_waveform w))) = w \<and>
   current_waveform (gpio_callback WAVEFORM_BUTTON_PIN now low s) =
     (if now - last_interrupt_time s > DEBOUNCE_MS then next_waveform (current_waveform s)
      else current_waveform s) \<and>
   currentWaveform (changeWaveform p) = next_waveform (currentWaveform p) \<and>
   changeWaveform (changeWaveform (changeWaveform (changeWaveform p))) = p \<and>
   currentWaveform (poll_button True True p) = next_waveform (currentWaveform p) \<and>
   currentWaveform (waveformButtonCallback waveformButtonPin GPIO_IRQ_EDGE_RISE t p) =
     (if t - lastButtonPressTime p \<ge> DEBOUNCE_DELAY_US then next_waveform (currentWaveform p)
      else currentWaveform p)"
  by (simp add: next_waveform_simps next_waveform_four gpio_callback_def Let_def
      changeWaveform_def poll_button_def waveformButtonCallback_def)

section \<open>Numeric entry: the buffer and its value\<close>

lemma isdigit_not_NUL: "isdigit c \<Longrightarrow> c \<noteq> NUL"
  by (auto simp: isdigit_def NUL_def)

lemma isdigit_not_D: "\<not> isdigit CHR ''D''"
  by (simp add: isdigit_def)

lemma strtof_terminated:
  assumes "n < length buf" "list_all isdigit (take n buf)" "buf ! n = NUL"
  shows "strtof buf = real (dec_value (take n buf))"
proof -
  have split: "buf = take n buf @ NUL # drop (Suc n) buf"
    using assms(1,3) by (metis id_take_nth_drop)
  have nonul: "\<forall>c \<in> set (take n buf). c \<noteq> NUL"
    using assms(2) isdigit_not_NUL by (auto simp: list_all_iff)
  have "takeWhile (\<lambda>c. c \<noteq> NUL) (take n buf @ NUL # drop (Suc n) buf) = take n buf"
    using nonul by (simp add: takeWhile_tail)
  then have a: "takeWhile (\<lambda>c. c \<noteq> NUL) buf = take n buf"
    using split by simp
  have b: "takeWhile isdigit (take n buf) = take n buf"
    using assms(2) by (simp add: list_all_iff takeWhile_eq_all_conv)
  show ?thesis
    unfolding strtof_def a b by (rule refl)
qed

lemma buffer_ok_init: "buffer_ok irq_init"
  by (simp add: buffer_ok_def irq_init_def)

lemma buffer_ok_handle_input:
  assumes "buffer_ok s"
  shows "buffer_ok (handle_input key s)"
proof -
  have digit: "buffer_ok (s\<lparr>inputBuffer := (inputBuffer s)[inputIndex s := key],
                 inputIndex := inputIndex s + 1\<rparr>)"
    if d: "isdigit key" and lt: "inputIndex s < 19"
  proof -
    let ?n = "inputIndex s" and ?b = "inputBuffer s"
    have len: "length ?b = 20" using assms by (simp add: buffer_ok_def)
    have tk: "take (Suc ?n) (?b[?n := key]) = take ?n ?b @ [key]"
      using lt len by (simp add: take_Suc_conv_app_nth)
    have dr: "drop (Suc ?n) (?b[?n := key]) = drop (Suc ?n) ?b"
      by simp
    have "drop (Suc ?n) ?b = drop 1 (drop ?n ?b)" by simp
    also have "\<dots> = drop 1 (replicate (20 - ?n) NUL)"
      using assms by (simp add: buffer_ok_def)
    also have "\<dots> = replicate (20 - Suc ?n) NUL" by simp
    finally have dr2: "drop (Suc ?n) ?b = replicate (20 - Suc ?n) NUL" .
    show ?thesis
      using assms d lt len tk dr dr2 by (simp add: buffer_ok_def)
  qed
  show ?thesis
    using assms digit
    by (auto simp: handle_input_def Let_def buffer_ok_def)
qed

lemma buffer_ok_handle_inputs: "buffer_ok s \<Longrightarrow> buffer_ok (handle_inputs ks s)"
  unfolding handle_inputs_def
  by (induction ks arbitrary: s) (simp_all add: buffer_ok_handle_input)

lemma strtof_buffer_ok:
  assumes "buffer_ok s"
  shows "strtof (inputBuffer s) = real (dec_value (take (inputIndex s) (inputBuffer s)))"
proof -
  have e: "drop (inputIndex s) (inputBuffer s) = replicate (20 - inputIndex s) NUL"
    and lt: "inputIndex s < 20" and len: "length (inputBuffer s) = 20"
    using assms by (simp_all add: buffer_ok_def)
  have "inputBuffer s ! inputIndex s = hd (drop (inputIndex s) (inputBuffer s))"
    using hd_drop_conv_nth [of "inputIndex s" "inputBuffer s"] lt len by simp
  also have "\<dots> = hd (replicate (20 - inputIndex s) NUL)"
    by (simp only: e)
  also have "\<dots> = NUL"
    using lt by simp
  finally have "inputBuffer s ! inputIndex s = NUL" .
  then show ?thesis
    using assms by (intro strtof_terminated) (simp_all add: buffer_ok_def)
qed

text \<open>The digit loop of the polling variant, on a buffer that holds digits up to the index.\<close>

lemma read_digits_terminated:
  assumes "list_all isdigit (take index str)"
    and "read_digits ks str index = Some (Inr (buf, rest))"
  shows "\<exists>n. index \<le> n \<and> n < length buf \<and> length buf = length str \<and>
           list_all isdigit (take n buf) \<and> buf ! n = NUL"
  using assms
proof (induction ks arbitrary: str index)
  case Nil
  then show ?case by simp
next
  case (Cons key ks)
  show ?case
  proof (cases "isdigit key")
    case True
    with Cons.prems(2) have lt: "index < length str"
      and rec: "read_digits ks (str[index := key]) (index + 1) = Some (Inr (buf, rest))"
      by (auto split: if_splits)
    have "take (index + 1) (str[index := key]) = take index str @ [key]"
      using lt by (simp add: take_Suc_conv_app_nth)
    then have "list_all isdigit (take (index + 1) (str[index := key]))"
      using Cons.prems(1) True by simp
    from Cons.IH [OF this rec] obtain n where "index + 1 \<le> n" "n < length buf"
      "length buf = length (str[index := key])" "list_all isdigit (take n buf)" "buf ! n = NUL"
      by blast
    then show ?thesis
      by (intro exI [of _ n]) simp
  next
    case False
    show ?thesis
    proof (cases "key = CHR ''D''")
      case True
      with False Cons.prems(2) have lt: "index < length str" and buf: "buf = str[index := NUL]"
        by (auto split: if_splits)
      then show ?thesis
        using Cons.prems(1) by (intro exI [of _ index]) simp
    next
      case notD: False
      with False Cons.prems(2) have "read_digits ks str index = Some (Inr (buf, rest))"
        by simp
      from Cons.IH [OF Cons.prems(1) this] show ?thesis .
    qed
  qed
qed

lemma read_digits_exact:
  assumes "list_all isdigit ds" and "index + length ds < length str"
  shows "\<exists>buf. read_digits (ds @ CHR ''D'' # rest) str index = Some (Inr (buf, rest)) \<and>
           length buf = length str \<and>
           take (index + length ds) buf = take index str @ ds \<and>
           buf ! (index + length ds) = NUL"
  using assms
proof (induction ds arbitrary: str index)
  case Nil
  then show ?case by (simp add: isdigit_not_D)
next
  case (Cons d ds)
  have d: "isdigit d" and ds: "list_all isdigit ds" using Cons.prems(1) by simp_all
  have lt: "index < length str" using Cons.prems(2) by simp
  have "(index + 1) + length ds < length (str[index := d])"
    using Cons.prems(2) by simp
  from Cons.IH [OF ds this] obtain buf where
    r: "read_digits (ds @ CHR ''D'' # rest) (str[index := d]) (index + 1) = Some (Inr (buf, rest))"
    and l: "length buf = length str"
    and t: "take (index + 1 + length ds) buf = take (index + 1) (str[index := d]) @ ds"
    and n: "buf ! (index + 1 + length ds) = NUL"
    by auto
  have "take (index + 1) (str[index := d]) = take index str @ [d]"
    using lt by (simp add: take_Suc_conv_app_nth)
  with t have t': "take (index + length (d # ds)) buf = take index str @ d # ds"
    by simp
  show ?case
    using d lt r l t' n by (intro exI [of _ buf]) simp
qed

lemma read_digits_overflow:
  assumes "list_all isdigit ds" and "index \<le> length str" and "length str \<le> index + length ds"
  shows "read_digits (ds @ CHR ''D'' # rest) str index =
           Some (Inl (OutOfBounds (length str) (length str)))"
  using assms
proof (induction ds arbitrary: str index)
  case Nil
  then show ?case by (simp add: isdigit_not_D)
next
  case (Cons d ds)
  then show ?case by (cases "index < length str") auto
qed

lemma read_digits_fresh:
  assumes "list_all isdigit ds" and "length ds < 16"
  shows "\<exists>buf. read_digits (ds @ CHR ''D'' # rest) (replicate 16 NUL) 0 = Some (Inr (buf, rest)) \<and>
           strtof buf = real (dec_value ds)"
proof -
  from read_digits_exact [OF assms(1), of 0 "replicate 16 NUL" rest] assms(2)
  obtain buf where r: "read_digits (ds @ CHR ''D'' # rest) (replicate 16 NUL) 0 = Some (Inr (buf, rest))"
    and l: "length buf = 16" and t: "take (length ds) buf = ds" and n: "buf ! length ds = NUL"
    by auto
  have "strtof buf = real (dec_value (take (length ds) buf))"
    using assms l t n by (intro strtof_terminated) simp_all
  with r t show ?thesis by auto
qed

text \<open>
  The three read functions of the polling variant: an entry of up to 15 digits is stored
  clamped into the parameter's range, and whatever they store lies in the range.
\<close>

lemma readAmplitude_commits_clamp:
  assumes "list_all isdigit ds" and "length ds < 16"
  shows "readAmplitude (ds @ CHR ''D'' # rest) p =
           Some (Inr (p\<lparr>amplitude_p := min (max (real (dec_value ds)) AMPLITUDE_MIN) AMPLITUDE_MAX\<rparr>, rest))"
  using read_digits_fresh [OF assms, of rest] by (auto simp: readAmplitude_def)

lemma readFrequency_commits_clamp:
  assumes "list_all isdigit ds" and "length ds < 16"
  shows "readFrequency (ds @ CHR ''D'' # rest) p =
           Some (Inr (p\<lparr>frequency_p := min (max (real (dec_value ds)) FREQUENCY_MIN) FREQUENCY_MAX\<rparr>, rest))"
  using read_digits_fresh [OF assms, of rest] by (auto simp: readFrequency_def)

lemma readDCOffset_commits_clamp:
  assumes "list_all isdigit ds" and "length ds < 16"
  shows "readDCOffset (ds @ CHR ''D'' # rest) p =
           Some (Inr (p\<lparr>dcOffset := min (max (real (dec_value ds)) (AMPLITUDE_MIN / 2)) (AMPLITUDE_MAX / 2)\<rparr>, rest))"
  using read_digits_fresh [OF assms, of rest] by (auto simp: readDCOffset_def)

lemma readAmplitude_in_range:
  "readAmplitude ks p = Some (Inr (p', rest)) \<Longrightarrow>
     AMPLITUDE_MIN \<le> amplitude_p p' \<and> amplitude_p p' \<le> AMPLITUDE_MAX"
  by (auto simp: readAmplitude_def AMPLITUDE_MIN_def AMPLITUDE_MAX_def
      split: option.splits sum.splits)

lemma readFrequency_in_range:
  "readFrequency ks p = Some (Inr (p', rest)) \<Longrightarrow>
     FREQUENCY_MIN \<le> frequency_p p' \<and> frequency_p p' \<le> FREQUENCY_MAX"
  by (auto simp: readFrequency_def FREQUENCY_MIN_def FREQUENCY_MAX_def
      split: option.splits sum.splits)

lemma readDCOffset_in_range:
  "readDCOffset ks p = Some (Inr (p', rest)) \<Longrightarrow>
     AMPLITUDE_MIN / 2 \<le> dcOffset p' \<and> dcOffset p' \<le> AMPLITUDE_MAX / 2"
  by (auto simp: readDCOffset_def AMPLITUDE_MIN_def AMPLITUDE_MAX_def
      split: option.splits sum.splits)

text \<open>
  \<^verbatim>\<open>handle_input\<close> of main.c key by key: a digit is stored while the index is below 19 and
  dropped otherwise; a selector, digits and \<^verbatim>\<open>'D'\<close> store the digits' value unchanged.
\<close>

lemma isdigit_not_selector:
  "\<not> isdigit CHR ''A''" "\<not> isdigit CHR ''B''" "\<not> isdigit CHR ''C''"
  by (simp_all add: isdigit_def)

lemma handle_input_digit:
  assumes "isdigit key"
  shows "handle_input key s =
           (if inputIndex s < 19
            then s\<lparr>inputBuffer := (inputBuffer s)[inputIndex s := key],
                    inputIndex := inputIndex s + 1\<rparr>
            else s)"
proof -
  have "key \<noteq> CHR ''D''" "key \<noteq> CHR ''A''" "key \<noteq> CHR ''B''" "key \<noteq> CHR ''C''"
    using assms isdigit_not_D isdigit_not_selector by blast+
  then show ?thesis
    using assms by (simp add: handle_input_def)
qed

lemma handle_input_full_buffer:
  "isdigit key \<Longrightarrow> inputIndex s = 19 \<Longrightarrow> handle_input key s = s"
  by (simp add: handle_input_digit)

lemma handle_inputs_index_bound: "inputIndex (handle_inputs ks irq_init) \<le> 19"
  using buffer_ok_handle_inputs [OF buffer_ok_init, of ks] by (simp add: buffer_ok_def)

lemma handle_inputs_Nil: "handle_inputs [] s = s"
  by (simp add: handle_inputs_def)

lemma handle_inputs_Cons: "handle_inputs (k # ks) s = handle_inputs ks (handle_input k s)"
  by (simp add: handle_inputs_def)

lemma handle_inputs_append: "handle_inputs (ks @ ks') s = handle_inputs ks' (handle_inputs ks s)"
  by (simp add: handle_inputs_def)

lemma handle_input_selector:
  "key = CHR ''A'' \<or> key = CHR ''B'' \<or> key = CHR ''C'' \<Longrightarrow> handle_input key s = s\<lparr>paramType := key\<rparr>"
  by (auto simp: handle_input_def)

lemma handle_input_confirm:
  "handle_input CHR ''D'' s =
     (if paramType s = CHR ''A'' then s\<lparr>amplitude := strtof (inputBuffer s)\<rparr>
      else if paramType s = CHR ''B'' then s\<lparr>frequency := strtof (inputBuffer s)\<rparr>
      else if paramType s = CHR ''C'' then s\<lparr>dc_offset := strtof (inputBuffer s)\<rparr>
      else s)\<lparr>inputIndex := 0, inputBuffer := replicate 20 NUL\<rparr>"
  by (simp add: handle_input_def)

lemma handle_inputs_digits:
  assumes "buffer_ok s" and "list_all isdigit ds" and "inputIndex s + length ds \<le> 19"
  shows "\<exists>buf. handle_inputs ds s = s\<lparr>inputBuffer := buf, inputIndex := inputIndex s + length ds\<rparr> \<and>
           take (inputIndex s + length ds) buf = take (inputIndex s) (inputBuffer s) @ ds"
  using assms
proof (induction ds arbitrary: s)
  case Nil
  then show ?case
    by (intro exI [of _ "inputBuffer s"]) (simp add: handle_inputs_Nil)
next
  case (Cons d ds)
  let ?s1 = "handle_input d s"
  have d: "isdigit d" and ds: "list_all isdigit ds" using Cons.prems(2) by simp_all
  have lt: "inputIndex s < 19" using Cons.prems(3) by simp
  have len: "length (inputBuffer s) = 20" using Cons.prems(1) by (simp add: buffer_ok_def)
  have s1: "?s1 = s\<lparr>inputBuffer := (inputBuffer s)[inputIndex s := d],
                       inputIndex := inputIndex s + 1\<rparr>"
    using d lt by (simp add: handle_input_digit)
  have ok1: "buffer_ok ?s1" using Cons.prems(1) by (rule buffer_ok_handle_input)
  have "inputIndex ?s1 + length ds \<le> 19" using Cons.prems(3) s1 by simp
  from Cons.IH [OF ok1 ds this] obtain buf where
    r: "handle_inputs ds ?s1 = ?s1\<lparr>inputBuffer := buf, inputIndex := inputIndex ?s1 + length ds\<rparr>"
    and t: "take (inputIndex ?s1 + length ds) buf = take (inputIndex ?s1) (inputBuffer ?s1) @ ds"
    by blast
  have tk: "take (inputIndex ?s1) (inputBuffer ?s1) = take (inputIndex s) (inputBuffer s) @ [d]"
    using lt len by (simp add: s1 take_Suc_conv_app_nth)
  have "handle_inputs (d # ds) s = s\<lparr>inputBuffer := buf, inputIndex := inputIndex s + length (d # ds)\<rparr>"
    using r by (simp add: handle_inputs_Cons s1)
  moreover have "take (inputIndex s + length (d # ds)) buf = take (inputIndex s) (inputBuffer s) @ d # ds"
    using t tk by (simp add: s1)
  ultimately show ?case by blast
qed

lemma strtof_after_digits:
  assumes "buffer_ok s" and "inputIndex s = 0" and "list_all isdigit ds" and "length ds \<le> 19"
  shows "strtof (inputBuffer (handle_inputs ds s)) = real (dec_value ds)"
proof -
  from handle_inputs_digits [OF assms(1,3)] assms(2,4) obtain buf where
    r: "handle_inputs ds s = s\<lparr>inputBuffer := buf, inputIndex := length ds\<rparr>"
    and t: "take (length ds) buf = ds"
    by auto
  have "buffer_ok (handle_inputs ds s)"
    using assms(1) by (rule buffer_ok_handle_inputs)
  from strtof_buffer_ok [OF this] show ?thesis
    by (simp add: r t)
qed

lemma handle_inputs_entry:
  assumes "buffer_ok s" and "inputIndex s = 0" and "list_all isdigit ds" and "length ds \<le> 19"
    and "sel = CHR ''A'' \<or> sel = CHR ''B'' \<or> sel = CHR ''C''"
  shows "handle_inputs (sel # ds @ [CHR ''D'']) s =
           (if sel = CHR ''A'' then s\<lparr>amplitude := real (dec_value ds)\<rparr>
            else if sel = CHR ''B'' then s\<lparr>frequency := real (dec_value ds)\<rparr>
            else s\<lparr>dc_offset := real (dec_value ds)\<rparr>)
           \<lparr>paramType := sel, inputIndex := 0, inputBuffer := replicate 20 NUL\<rparr>"
proof -
  let ?s0 = "s\<lparr>paramType := sel\<rparr>"
  have ok0: "buffer_ok ?s0" and i0: "inputIndex ?s0 = 0"
    using assms(1,2) by (simp_all add: buffer_ok_def)
  from handle_inputs_digits [OF ok0 assms(3)] assms(4) i0 obtain buf where
    r: "handle_inputs ds ?s0 = ?s0\<lparr>inputBuffer := buf, inputIndex := length ds\<rparr>"
    by auto
  have "strtof (inputBuffer (handle_inputs ds ?s0)) = real (dec_value ds)"
    using ok0 i0 assms(3,4) by (rule strtof_after_digits)
  then have v: "strtof buf = real (dec_value ds)"
    by (simp add: r)
  have "handle_inputs (sel # ds @ [CHR ''D'']) s = handle_input CHR ''D'' (handle_inputs ds ?s0)"
    using assms(5)
    by (simp add: handle_inputs_Cons handle_inputs_append handle_inputs_Nil handle_input_selector)
  also have "\<dots> = handle_input CHR ''D'' (?s0\<lparr>inputBuffer := buf, inputIndex := length ds\<rparr>)"
    by (simp only: r)
  also have "\<dots> = (if sel = CHR ''A'' then s\<lparr>amplitude := real (dec_value ds)\<rparr>
            else if sel = CHR ''B'' then s\<lparr>frequency := real (dec_value ds)\<rparr>
            else s\<lparr>dc_offset := real (dec_value ds)\<rparr>)
           \<lparr>paramType := sel, inputIndex := 0, inputBuffer := replicate 20 NUL\<rparr>"
    using assms(5) by (auto simp: handle_input_confirm v)
  finally show ?thesis .
qed

lemma isdigit_digits:
  "isdigit CHR ''0''" "isdigit CHR ''1''" "isdigit CHR ''2''" "isdigit CHR ''3''"
  "isdigit CHR ''4''" "isdigit CHR ''5''" "isdigit CHR ''6''" "isdigit CHR ''7''"
  "isdigit CHR ''8''" "isdigit CHR ''9''"
  by (simp_all add: isdigit_def)

lemma dec_value_simps:
  "dec_value [] = 0"
  "dec_value (ds @ [d]) = 10 * dec_value ds + digit_val d"
  by (simp_all add: dec_value_def)

section \<open>Committing an entry\<close>

lemma dec_value_5: "dec_value ''5'' = 5"
  by (simp add: dec_value_def digit_val_def)

lemma dec_value_9999: "dec_value ''9999'' = 9999"
  by (simp add: dec_value_def digit_val_def)

text \<open>
  Claim C1 says that confirming with \<^verbatim>\<open>'D'\<close> stores the entered number clamped into the
  parameter's range and leaves the buffer empty. The polling variant does so (lemmas
  \<open>readAmplitude_commits_clamp\<close>, \<open>readFrequency_commits_clamp\<close> and
  \<open>readDCOffset_commits_clamp\<close>, for up to 15 digits). \<^verbatim>\<open>handle_input\<close> of main.c stores
  the parsed number as it is (lemma \<open>handle_inputs_entry\<close>): after the keys A, 5, D from
  the initial state the amplitude is 5, where the clamp into 100..2500 gives 100; the
  buffer is cleared. The polling variant stores 100 for the same keys.
\<close>

theorem handle_input_stores_unclamped:
  "amplitude (handle_inputs ''A5D'' irq_init) = 5 \<and>
   min (max 5 AMPLITUDE_MIN) AMPLITUDE_MAX = 100 \<and>
   inputIndex (handle_inputs ''A5D'' irq_init) = 0 \<and>
   inputBuffer (handle_inputs ''A5D'' irq_init) = replicate 20 NUL \<and>
   main_keypad ''A5D'' poll_init = Some (Inr (poll_init\<lparr>amplitude_p := 100\<rparr>, []))"
proof -
  have "handle_inputs ''A5D'' irq_init =
          irq_init\<lparr>amplitude := 5, paramType := CHR ''A'', inputIndex := 0,
                     inputBuffer := replicate 20 NUL\<rparr>"
    using handle_inputs_entry [OF buffer_ok_init, of "''5''" "CHR ''A''"]
    by (simp add: irq_init_def isdigit_digits dec_value_5)
  moreover have "main_keypad ''A5D'' poll_init = Some (Inr (poll_init\<lparr>amplitude_p := 100\<rparr>, []))"
    using readAmplitude_commits_clamp [of "''5''" "[]" poll_init]
    by (simp add: main_keypad_def isdigit_digits dec_value_5 AMPLITUDE_MIN_def AMPLITUDE_MAX_def)
  ultimately show ?thesis
    by (simp add: AMPLITUDE_MIN_def AMPLITUDE_MAX_def)
qed

text \<open>
  Claim C2 says that amplitude, frequency and DC offset lie in their ranges in every
  reachable state, the initial one included. The polling variant starts with the DC
  offset \<open>(AMPLITUDE_MIN + AMPLITUDE_MAX) / 2 = 1300\<close>, above the bound
  \<open>AMPLITUDE_MAX / 2 = 1250\<close> that \<^verbatim>\<open>readDCOffset\<close> enforces. In main.c the keys C, 9, 9, 9,
  9, D store the DC offset 9999, and the keys B, D store the frequency 0, below
  \<open>FREQUENCY_MIN = 1\<close>.
\<close>

theorem parameters_leave_range:
  "dcOffset poll_init = 1300 \<and> \<not> dcOffset poll_init \<le> AMPLITUDE_MAX / 2 \<and>
   dc_offset (handle_inputs ''C9999D'' irq_init) = 9999 \<and>
   \<not> dc_offset (handle_inputs ''C9999D'' irq_init) \<le> AMPLITUDE_MAX / 2 \<and>
   frequency (handle_inputs ''BD'' irq_init) = 0 \<and>
   \<not> FREQUENCY_MIN \<le> frequency (handle_inputs ''BD'' irq_init)"
proof -
  have "handle_inputs ''C9999D'' irq_init =
          irq_init\<lparr>dc_offset := 9999, paramType := CHR ''C'', inputIndex := 0,
                     inputBuffer := replicate 20 NUL\<rparr>"
    using handle_inputs_entry [OF buffer_ok_init, of "''9999''" "CHR ''C''"]
    by (simp add: irq_init_def isdigit_digits dec_value_9999)
  moreover have "handle_inputs ''BD'' irq_init =
          irq_init\<lparr>frequency := 0, paramType := CHR ''B'', inputIndex := 0,
                     inputBuffer := replicate 20 NUL\<rparr>"
    using handle_inputs_entry [OF buffer_ok_init, of "[]" "CHR ''B''"]
    by (simp add: irq_init_def dec_value_simps)
  ultimately show ?thesis
    by (simp add: poll_init_def AMPLITUDE_MIN_def AMPLITUDE_MAX_def FREQUENCY_MIN_def)
qed

text \<open>
  Claim C8 says that the digit buffer never overflows: digits beyond its capacity are
  dropped. \<^verbatim>\<open>handle_input\<close> of main.c does that (lemmas \<open>handle_input_full_buffer\<close>,
  \<open>handle_inputs_index_bound\<close> and \<open>buffer_ok_handle_inputs\<close>). The three read functions
  of the polling variant store every digit without a test: with 16 digits before
  \<^verbatim>\<open>'D'\<close> the array of 16 characters is full and the terminating NUL is written at
  index 16, outside it (lemma \<open>read_digits_overflow\<close> for any longer entry).
\<close>

theorem readAmplitude_writes_out_of_bounds:
  "main_keypad ''A1234567890123456D'' poll_init = Some (Inl (OutOfBounds 16 16)) \<and>
   readFrequency ''1234567890123456D'' poll_init = Some (Inl (OutOfBounds 16 16)) \<and>
   readDCOffset ''1234567890123456D'' poll_init = Some (Inl (OutOfBounds 16 16))"
proof -
  have "read_digits ''1234567890123456D'' (replicate 16 NUL) 0 = Some (Inl (OutOfBounds 16 16))"
    using read_digits_overflow [of "''1234567890123456''" 0 "replicate 16 NUL" "[]"]
    by (simp add: isdigit_digits)
  then show ?thesis
    by (simp add: main_keypad_def readAmplitude_def readFrequency_def readDCOffset_def)
qed

section \<open>What an entry can commit, and what each operation changes\<close>

lemma strtof_Nats: "strtof s \<in> \<nat>"
  by (simp add: strtof_def)

lemma handle_input_amplitude:
  "amplitude (handle_input key s) =
     (if key = CHR ''D'' \<and> paramType s = CHR ''A'' then strtof (inputBuffer s) else amplitude s)"
  by (simp add: handle_input_def)

lemma handle_input_frequency:
  "frequency (handle_input key s) =
     (if key = CHR ''D'' \<and> paramType s = CHR ''B'' then strtof (inputBuffer s) else frequency s)"
  by (simp add: handle_input_def)

lemma handle_input_dc_offset:
  "dc_offset (handle_input key s) =
     (if key = CHR ''D'' \<and> paramType s = CHR ''C'' then strtof (inputBuffer s) else dc_offset s)"
  by (simp add: handle_input_def)

lemma handle_input_other_fields:
  "current_waveform (handle_input key s) = current_waveform s"
  "last_interrupt_time (handle_input key s) = last_interrupt_time s"
  "last_time (handle_input key s) = last_time s"
  by (simp_all add: handle_input_def)

lemma handle_inputs_other_fields:
  "current_waveform (handle_inputs ks s) = current_waveform s"
  "last_interrupt_time (handle_inputs ks s) = last_interrupt_time s"
  "last_time (handle_inputs ks s) = last_time s"
  by (induction ks arbitrary: s)
     (simp_all add: handle_inputs_Nil handle_inputs_Cons handle_input_other_fields)

lemma handle_inputs_Nats:
  assumes "amplitude s \<in> \<nat>" and "frequency s \<in> \<nat>" and "dc_offset s \<in> \<nat>"
  shows "amplitude (handle_inputs ks s) \<in> \<nat> \<and> frequency (handle_inputs ks s) \<in> \<nat> \<and>
         dc_offset (handle_inputs ks s) \<in> \<nat>"
  using assms
proof (induction ks arbitrary: s)
  case Nil
  then show ?case by (simp add: handle_inputs_Nil)
next
  case (Cons k ks)
  have "amplitude (handle_input k s) \<in> \<nat>" "frequency (handle_input k s) \<in> \<nat>"
    "dc_offset (handle_input k s) \<in> \<nat>"
    using Cons.prems
    by (simp_all add: handle_input_amplitude handle_input_frequency handle_input_dc_offset
        strtof_Nats)
  from Cons.IH [OF this] show ?case
    by (simp add: handle_inputs_Cons)
qed

lemma irq_init_Nats:
  "amplitude irq_init \<in> \<nat>" "frequency irq_init \<in> \<nat>" "dc_offset irq_init \<in> \<nat>"
  by (simp_all add: irq_init_def)

lemma clamp_Nats:
  fixes x lo hi :: real
  shows "x \<in> \<nat> \<Longrightarrow> lo \<in> \<nat> \<Longrightarrow> hi \<in> \<nat> \<Longrightarrow> min (max x lo) hi \<in> \<nat>"
  by (simp add: min_def max_def)

lemma bounds_Nats:
  "AMPLITUDE_MIN \<in> \<nat>" "AMPLITUDE_MAX \<in> \<nat>" "FREQUENCY_MIN \<in> \<nat>" "FREQUENCY_MAX \<in> \<nat>"
  "AMPLITUDE_MIN / 2 \<in> \<nat>" "AMPLITUDE_MAX / 2 \<in> \<nat>"
  by (simp_all add: AMPLITUDE_MIN_def AMPLITUDE_MAX_def FREQUENCY_MIN_def FREQUENCY_MAX_def)

lemma read_digits_value:
  assumes "read_digits ks (replicate 16 NUL) 0 = Some (Inr (buf, rest))"
  shows "\<exists>n<16. list_all isdigit (take n buf) \<and> buf ! n = NUL \<and>
           strtof buf = real (dec_value (take n buf))"
proof -
  have "list_all isdigit (take 0 (replicate 16 NUL))" by simp
  from read_digits_terminated [OF this assms] obtain n where
    n: "n < length buf" "length buf = 16" "list_all isdigit (take n buf)" "buf ! n = NUL"
    by auto
  from strtof_terminated [OF n(1,3,4)] n show ?thesis
    by (intro exI [of _ n]) simp
qed

text \<open>
  Claim C9. Every value the numeric entry can commit is the value of a string of
  decimal digits, hence a natural number. In main.c every state reached from the
  initial one by any keys (any characters at all) has a buffer with digits up to
  \<^verbatim>\<open>inputIndex\<close> and NUL after them, \<^verbatim>\<open>strtof\<close> of such a buffer is the value of its digits,
  and the three parameters are natural numbers. In the polling variant the buffer that
  the digit loop returns holds digits up to a NUL, and the three read functions store a
  natural number. The key table holds no point and no sign.
\<close>

theorem entry_values_are_digit_strings:
  "buffer_ok (handle_inputs ks irq_init) \<and>
   amplitude (handle_inputs ks irq_init) \<in> \<nat> \<and>
   frequency (handle_inputs ks irq_init) \<in> \<nat> \<and>
   dc_offset (handle_inputs ks irq_init) \<in> \<nat> \<and>
   (buffer_ok s \<longrightarrow>
      buffer_ok (handle_input key s) \<and>
      list_all isdigit (take (inputIndex s) (inputBuffer s)) \<and>
      strtof (inputBuffer s) = real (dec_value (take (inputIndex s) (inputBuffer s)))) \<and>
   (read_digits ks (replicate 16 NUL) 0 = Some (Inr (buf, rest)) \<longrightarrow>
      (\<exists>n<16. list_all isdigit (take n buf) \<and> buf ! n = NUL \<and>
         strtof buf = real (dec_value (take n buf)))) \<and>
   (readAmplitude ks p = Some (Inr (p', rest)) \<longrightarrow> amplitude_p p' \<in> \<nat>) \<and>
   (readFrequency ks p = Some (Inr (p', rest)) \<longrightarrow> frequency_p p' \<in> \<nat>) \<and>
   (readDCOffset ks p = Some (Inr (p', rest)) \<longrightarrow> dcOffset p' \<in> \<nat>) \<and>
   concat keys = ''123A456B789C*0#D''"
proof -
  have a: "buffer_ok (handle_inputs ks irq_init)"
    using buffer_ok_init by (rule buffer_ok_handle_inputs)
  have b: "amplitude (handle_inputs ks irq_init) \<in> \<nat> \<and>
           frequency (handle_inputs ks irq_init) \<in> \<nat> \<and>
           dc_offset (handle_inputs ks irq_init) \<in> \<nat>"
    using irq_init_Nats by (rule handle_inputs_Nats)
  have c: "buffer_ok s \<longrightarrow>
      buffer_ok (handle_input key s) \<and>
      list_all isdigit (take (inputIndex s) (inputBuffer s)) \<and>
      strtof (inputBuffer s) = real (dec_value (take (inputIndex s) (inputBuffer s)))"
    using buffer_ok_handle_input [of s key] strtof_buffer_ok [of s]
    by (simp add: buffer_ok_def)
  have d: "read_digits ks (replicate 16 NUL) 0 = Some (Inr (buf, rest)) \<longrightarrow>
      (\<exists>n<16. list_all isdigit (take n buf) \<and> buf ! n = NUL \<and>
         strtof buf = real (dec_value (take n buf)))"
    using read_digits_value by blast
  have e: "readAmplitude ks p = Some (Inr (p', rest)) \<longrightarrow> amplitude_p p' \<in> \<nat>"
    using clamp_Nats [OF strtof_Nats bounds_Nats(1,2)]
    by (auto simp: readAmplitude_def split: option.splits sum.splits)
  have f: "readFrequency ks p = Some (Inr (p', rest)) \<longrightarrow> frequency_p p' \<in> \<nat>"
    using clamp_Nats [OF strtof_Nats bounds_Nats(3,4)]
    by (auto simp: readFrequency_def split: option.splits sum.splits)
  have g: "readDCOffset ks p = Some (Inr (p', rest)) \<longrightarrow> dcOffset p' \<in> \<nat>"
    using clamp_Nats [OF strtof_Nats bounds_Nats(5,6)]
    by (auto simp: readDCOffset_def split: option.splits sum.splits)
  have h: "concat keys = ''123A456B789C*0#D''"
    by (simp add: keys_def)
  from a b c d e f g h show ?thesis
    by (intro conjI) blast+
qed

theorem entry_values_are_digit_strings_witness:
  "buffer_ok (handle_inputs ''B42'' irq_init) \<and>
   buffer_ok (handle_input CHR ''D'' (handle_inputs ''B42'' irq_init)) \<and>
   strtof (inputBuffer (handle_inputs ''B42'' irq_init)) = 42 \<and>
   (\<exists>p'. readAmplitude ''42D'' poll_init = Some (Inr (p', [])) \<and> amplitude_p p' \<in> \<nat>) \<and>
   (\<exists>p'. readFrequency ''42D'' poll_init = Some (Inr (p', [])) \<and> frequency_p p' \<in> \<nat>) \<and>
   (\<exists>p'. readDCOffset ''42D'' poll_init = Some (Inr (p', [])) \<and> dcOffset p' \<in> \<nat>)"
proof -
  let ?s = "handle_inputs ''B42'' irq_init"
  have ok: "buffer_ok ?s"
    using entry_values_are_digit_strings [of "''B42''"] by blast
  have tk: "take (inputIndex ?s) (inputBuffer ?s) = ''42''"
    by code_simp
  have v: "dec_value ''42'' = 42"
    by (simp add: dec_value_def digit_val_def)
  have m: "buffer_ok (handle_input CHR ''D'' ?s) \<and> strtof (inputBuffer ?s) = 42"
    using entry_values_are_digit_strings [of "[]" ?s "CHR ''D''"] ok by (simp add: tk v)
  have ra: "readAmplitude ''42D'' poll_init =
      Some (Inr (poll_init\<lparr>amplitude_p := min (max (real (dec_value ''42'')) AMPLITUDE_MIN) AMPLITUDE_MAX\<rparr>, []))"
    using readAmplitude_commits_clamp [of "''42''" "[]" poll_init] by (simp add: isdigit_digits)
  have rf: "readFrequency ''42D'' poll_init =
      Some (Inr (poll_init\<lparr>frequency_p := min (max (real (dec_value ''42'')) FREQUENCY_MIN) FREQUENCY_MAX\<rparr>, []))"
    using readFrequency_commits_clamp [of "''42''" "[]" poll_init] by (simp add: isdigit_digits)
  have rd: "readDCOffset ''42D'' poll_init =
      Some (Inr (poll_init\<lparr>dcOffset := min (max (real (dec_value ''42'')) (AMPLITUDE_MIN / 2)) (AMPLITUDE_MAX / 2)\<rparr>, []))"
    using readDCOffset_commits_clamp [of "''42''" "[]" poll_init] by (simp add: isdigit_digits)
  have pa: "\<exists>p'. readAmplitude ''42D'' poll_init = Some (Inr (p', [])) \<and> amplitude_p p' \<in> \<nat>"
    using entry_values_are_digit_strings [of "''42D''" _ _ _ "[]" poll_init] ra by blast
  have pf: "\<exists>p'. readFrequency ''42D'' poll_init = Some (Inr (p', [])) \<and> frequency_p p' \<in> \<nat>"
    using entry_values_are_digit_strings [of "''42D''" _ _ _ "[]" poll_init] rf by blast
  have pd: "\<exists>p'. readDCOffset ''42D'' poll_init = Some (Inr (p', [])) \<and> dcOffset p' \<in> \<nat>"
    using entry_values_are_digit_strings [of "''42D''" _ _ _ "[]" poll_init] rd by blast
  from ok m pa pf pd show ?thesis by blast
qed

text \<open>
  Claim C10. Each operation changes its own field only. In main.c a button event
  leaves amplitude, frequency and DC offset as they are; \<^verbatim>\<open>handle_input\<close> never changes
  the waveform, and it changes a scalar parameter exactly when the key is \<^verbatim>\<open>'D'\<close> and that
  parameter is the selected one. In the polling variant \<^verbatim>\<open>changeWaveform\<close> leaves the
  three scalars, and each read function leaves the other two scalars and the waveform.
\<close>

theorem mutations_touch_own_field:
  "amplitude (gpio_callback WAVEFORM_BUTTON_PIN now low s) = amplitude s \<and>
   frequency (gpio_callback WAVEFORM_BUTTON_PIN now low s) = frequency s \<and>
   dc_offset (gpio_callback WAVEFORM_BUTTON_PIN now low s) = dc_offset s \<and>
   current_waveform (handle_input key s) = current_waveform s \<and>
   current_waveform (handle_inputs ks s) = current_waveform s \<and>
   amplitude (handle_input key s) =
     (if key = CHR ''D'' \<and> paramType s = CHR ''A'' then strtof (inputBuffer s) else amplitude s) \<and>
   frequency (handle_input key s) =
     (if key = CHR ''D'' \<and> paramType s = CHR ''B'' then strtof (inputBuffer s) else frequency s) \<and>
   dc_offset (handle_input key s) =
     (if key = CHR ''D'' \<and> paramType s = CHR ''C'' then strtof (inputBuffer s) else dc_offset s) \<and>
   amplitude_p (changeWaveform p) = amplitude_p p \<and>
   frequency_p (changeWaveform p) = frequency_p p \<and>
   dcOffset (changeWaveform p) = dcOffset p \<and>
   (readAmplitude ks p = Some (Inr (p', rest)) \<longrightarrow>
      frequency_p p' = frequency_p p \<and> dcOffset p' = dcOffset p \<and>
      currentWaveform p' = currentWaveform p) \<and>
   (readFrequency ks p = Some (Inr (p', rest)) \<longrightarrow>
      amplitude_p p' = amplitude_p p \<and> dcOffset p' = dcOffset p \<and>
      currentWaveform p' = currentWaveform p) \<and>
   (readDCOffset ks p = Some (Inr (p', rest)) \<longrightarrow>
      amplitude_p p' = amplitude_p p \<and> frequency_p p' = frequency_p p \<and>
      currentWaveform p' = currentWaveform p)"
proof -
  have button: "amplitude (gpio_callback WAVEFORM_BUTTON_PIN now low s) = amplitude s \<and>
      frequency (gpio_callback WAVEFORM_BUTTON_PIN now low s) = frequency s \<and>
      dc_offset (gpio_callback WAVEFORM_BUTTON_PIN now low s) = dc_offset s"
    by (simp add: gpio_callback_def Let_def)
  have poll: "amplitude_p (changeWaveform p) = amplitude_p p \<and>
      frequency_p (changeWaveform p) = frequency_p p \<and> dcOffset (changeWaveform p) = dcOffset p"
    by (simp add: changeWaveform_def)
  have ra: "readAmplitude ks p = Some (Inr (p', rest)) \<longrightarrow>
      frequency_p p' = frequency_p p \<and> dcOffset p' = dcOffset p \<and>
      currentWaveform p' = currentWaveform p"
    by (auto simp: readAmplitude_def split: option.splits sum.splits)
  have rf: "readFrequency ks p = Some (Inr (p', rest)) \<longrightarrow>
      amplitude_p p' = amplitude_p p \<and> dcOffset p' = dcOffset p \<and>
      currentWaveform p' = currentWaveform p"
    by (auto simp: readFrequency_def split: option.splits sum.splits)
  have rd: "readDCOffset ks p = Some (Inr (p', rest)) \<longrightarrow>
      amplitude_p p' = amplitude_p p \<and> frequency_p p' = frequency_p p \<and>
      currentWaveform p' = currentWaveform p"
    by (auto simp: readDCOffset_def split: option.splits sum.splits)
  from button poll ra rf rd show ?thesis
    by (simp only: handle_input_other_fields handle_inputs_other_fields handle_input_amplitude
        handle_input_frequency handle_input_dc_offset simp_thms)
qed

theorem mutations_touch_own_field_witness:
  "(\<exists>p'. readAmplitude ''7D'' poll_init = Some (Inr (p', [])) \<and>
      frequency_p p' = frequency_p poll_init \<and> dcOffset p' = dcOffset poll_init \<and>
      currentWaveform p' = currentWaveform poll_init) \<and>
   (\<exists>p'. readFrequency ''7D'' poll_init = Some (Inr (p', [])) \<and>
      amplitude_p p' = amplitude_p poll_init \<and> dcOffset p' = dcOffset poll_init \<and>
      currentWaveform p' = currentWaveform poll_init) \<and>
   (\<exists>p'. readDCOffset ''7D'' poll_init = Some (Inr (p', [])) \<and>
      amplitude_p p' = amplitude_p poll_init \<and> frequency_p p' = frequency_p poll_init \<and>
      currentWaveform p' = currentWaveform poll_init)"
proof -
  obtain pa where ra: "readAmplitude ''7D'' poll_init = Some (Inr (pa, []))"
    using readAmplitude_commits_clamp [of "''7''" "[]" poll_init] by (simp add: isdigit_digits)
  obtain pf where rf: "readFrequency ''7D'' poll_init = Some (Inr (pf, []))"
    using readFrequency_commits_clamp [of "''7''" "[]" poll_init] by (simp add: isdigit_digits)
  obtain pd where rd: "readDCOffset ''7D'' poll_init = Some (Inr (pd, []))"
    using readDCOffset_commits_clamp [of "''7''" "[]" poll_init] by (simp add: isdigit_digits)
  have a: "frequency_p pa = frequency_p poll_init \<and> dcOffset pa = dcOffset poll_init \<and>
      currentWaveform pa = currentWaveform poll_init"
    using mutations_touch_own_field [of _ _ _ _ "''7D''" poll_init pa "[]"] ra by blast
  have f: "amplitude_p pf = amplitude_p poll_init \<and> dcOffset pf = dcOffset poll_init \<and>
      currentWaveform pf = currentWaveform poll_init"
    using mutations_touch_own_field [of _ _ _ _ "''7D''" poll_init pf "[]"] rf by blast
  have d: "amplitude_p pd = amplitude_p poll_init \<and> frequency_p pd = frequency_p poll_init \<and>
      currentWaveform pd = currentWaveform poll_init"
    using mutations_touch_own_field [of _ _ _ _ "''7D''" poll_init pd "[]"] rd by blast
  from ra rf rd a f d show ?thesis by blast
qed

section \<open>Debouncing\<close>

lemma gpio_callback_rejected:
  "\<not> DEBOUNCE_MS < now - last_interrupt_time s \<Longrightarrow> gpio_callback gpio now low s = s"
  by (simp add: gpio_callback_def)

lemma gpio_callback_time:
  "DEBOUNCE_MS < now - last_interrupt_time s \<Longrightarrow>
     last_interrupt_time (gpio_callback gpio now low s) = now"
  by (simp add: gpio_callback_def Let_def handle_inputs_other_fields)

lemma main_keypad_gate:
  "main_keypad ks p = Some (Inr (p', rest)) \<Longrightarrow> lastButtonPressTime p' = lastButtonPressTime p"
  by (auto simp: main_keypad_def readAmplitude_def readFrequency_def readDCOffset_def
      split: list.splits if_splits option.splits sum.splits)

text \<open>
  Claim C7 says that the button and the keypad have independent debounce gates, so that
  an event on one source never suppresses an event on the other. In main.c it is
  otherwise: \<^verbatim>\<open>gpio_callback\<close> serves both sources and tests one time stamp before it looks
  at the pin. A key press taken at 1000 ms makes the callback drop the button press at
  1100 ms, which it takes when the key press has not happened.
\<close>

theorem keypad_event_suppresses_button:
  "current_waveform (gpio_callback WAVEFORM_BUTTON_PIN 1100 (\<lambda>row col. False) irq_init) = SQUARE \<and>
   current_waveform (gpio_callback WAVEFORM_BUTTON_PIN 1100 (\<lambda>row col. False)
      (gpio_callback 22 1000 (\<lambda>row col. row = 0 \<and> col = 0) irq_init)) = SINE"
proof -
  have a: "last_interrupt_time (gpio_callback 22 1000 (\<lambda>row col. row = 0 \<and> col = 0) irq_init) = 1000"
    by (rule gpio_callback_time) (simp add: irq_init_def DEBOUNCE_MS_def)
  have b: "current_waveform (gpio_callback 22 1000 (\<lambda>row col. row = 0 \<and> col = 0) irq_init) = SINE"
    by (simp add: gpio_callback_def Let_def handle_inputs_other_fields irq_init_def
        WAVEFORM_BUTTON_PIN_def)
  have "gpio_callback WAVEFORM_BUTTON_PIN 1100 (\<lambda>row col. False)
      (gpio_callback 22 1000 (\<lambda>row col. row = 0 \<and> col = 0) irq_init) =
      gpio_callback 22 1000 (\<lambda>row col. row = 0 \<and> col = 0) irq_init"
    by (rule gpio_callback_rejected) (simp add: a DEBOUNCE_MS_def)
  then show ?thesis
    using b by (simp add: gpio_callback_def Let_def irq_init_def DEBOUNCE_MS_def next_waveform_simps)
qed

text \<open>
  Claim C7 as amended. In main.c the two sources share one gate: once an event of either
  source is taken at the time \<open>now\<close>, an event of either source whose time \<open>now'\<close> has
  \<open>now' - now \<le> 200\<close> (in \<^verbatim>\<open>uint64_t\<close> arithmetic) changes nothing; an event that is
  dropped changes nothing, the time stamp included, so dropped events do not prolong the
  window. In the polling variant the keypad functions never touch
  \<^verbatim>\<open>lastButtonPressTime\<close>, the gate of the button's callback.
\<close>

theorem one_debounce_gate_for_all_sources:
  "(DEBOUNCE_MS < now - last_interrupt_time s \<longrightarrow> now' - now \<le> DEBOUNCE_MS \<longrightarrow>
      gpio_callback gpio' now' low' (gpio_callback gpio now low s) = gpio_callback gpio now low s) \<and>
   (\<not> DEBOUNCE_MS < now - last_interrupt_time s \<longrightarrow> gpio_callback gpio now low s = s) \<and>
   (main_keypad ks p = Some (Inr (p', rest)) \<longrightarrow> lastButtonPressTime p' = lastButtonPressTime p)"
proof -
  have "gpio_callback gpio' now' low' (gpio_callback gpio now low s) = gpio_callback gpio now low s"
    if "DEBOUNCE_MS < now - last_interrupt_time s" and "now' - now \<le> DEBOUNCE_MS"
  proof -
    have "last_interrupt_time (gpio_callback gpio now low s) = now"
      using that(1) by (rule gpio_callback_time)
    then have "\<not> DEBOUNCE_MS < now' - last_interrupt_time (gpio_callback gpio now low s)"
      using that(2) by simp
    then show ?thesis by (rule gpio_callback_rejected)
  qed
  then show ?thesis
    using gpio_callback_rejected main_keypad_gate by blast
qed

theorem one_debounce_gate_for_all_sources_witness:
  "gpio_callback WAVEFORM_BUTTON_PIN 1100 (\<lambda>row col. False)
      (gpio_callback 22 1000 (\<lambda>row col. row = 0 \<and> col = 0) irq_init) =
      gpio_callback 22 1000 (\<lambda>row col. row = 0 \<and> col = 0) irq_init \<and>
   gpio_callback 22 150 (\<lambda>row col. row = 0 \<and> col = 0) irq_init = irq_init \<and>
   (\<exists>p'. main_keypad ''A7D'' poll_init = Some (Inr (p', [])) \<and>
      lastButtonPressTime p' = lastButtonPressTime poll_init)"
proof -
  have h1: "DEBOUNCE_MS < 1000 - last_interrupt_time irq_init"
    and h2: "(1100 :: 64 word) - 1000 \<le> DEBOUNCE_MS"
    and h3: "\<not> DEBOUNCE_MS < 150 - last_interrupt_time irq_init"
    by (simp_all add: irq_init_def DEBOUNCE_MS_def)
  obtain p' where h4: "main_keypad ''A7D'' poll_init = Some (Inr (p', []))"
    using readAmplitude_commits_clamp [of "''7''" "[]" poll_init]
    by (simp add: main_keypad_def isdigit_digits)
  from h1 h2 have "gpio_callback WAVEFORM_BUTTON_PIN 1100 (\<lambda>row col. False)
      (gpio_callback 22 1000 (\<lambda>row col. row = 0 \<and> col = 0) irq_init) =
      gpio_callback 22 1000 (\<lambda>row col. row = 0 \<and> col = 0) irq_init"
    using one_debounce_gate_for_all_sources [of 1000 irq_init 1100] by blast
  moreover from h3 have "gpio_callback 22 150 (\<lambda>row col. row = 0 \<and> col = 0) irq_init = irq_init"
    using one_debounce_gate_for_all_sources [of 150 irq_init] by blast
  moreover from h4 have "lastButtonPressTime p' = lastButtonPressTime poll_init"
    using one_debounce_gate_for_all_sources [of _ _ _ _ _ _ _ "''A7D''" poll_init p' "[]"] by blast
  ultimately show ?thesis
    using h4 by blast
qed

section \<open>The DAC code\<close>

lemma poll_dac_value_low: "scaled_value v \<le> 0 \<Longrightarrow> poll_dac_value v = 0"
  by (simp add: poll_dac_value_def c_trunc_def max_def)

lemma poll_dac_value_high: "255 \<le> scaled_value v \<Longrightarrow> poll_dac_value v = 255"
  by (simp add: poll_dac_value_def c_trunc_def max_def min_def)

lemma poll_dac_value_mid:
  assumes "0 \<le> scaled_value v" and "scaled_value v \<le> 255"
  shows "uint (poll_dac_value v) = \<lfloor>scaled_value v\<rfloor>"
proof -
  have "0 \<le> \<lfloor>scaled_value v\<rfloor>" using assms(1) by simp
  moreover have "\<lfloor>scaled_value v\<rfloor> \<le> 255" using assms(2) by (simp add: floor_le_iff)
  ultimately have "uint (word_of_int \<lfloor>scaled_value v\<rfloor> :: 8 word) = \<lfloor>scaled_value v\<rfloor>"
    by (simp add: uint_word_of_int take_bit_int_eq_self)
  then show ?thesis
    using assms by (simp add: poll_dac_value_def c_trunc_def max_def min_def)
qed

lemma dac_value_1000: "dac_value 1000 = Some 77272"
proof -
  have "\<lfloor>(1000 / 3.3 * 255 :: real)\<rfloor> = 77272"
    by (simp add: floor_eq_iff)
  then show ?thesis
    by (simp add: dac_value_def VREF_def DAC_MAX_VALUE_def c_trunc_def)
qed

lemma dac_value_above_255:
  assumes "500 \<le> v" and "v \<le> 1500"
  shows "\<exists>n. dac_value v = Some n \<and> 38636 \<le> n"
proof -
  let ?x = "v / VREF * DAC_MAX_VALUE"
  have x: "?x = v * 2550 / 33" by (simp add: VREF_def DAC_MAX_VALUE_def)
  have lo: "38636 \<le> ?x" and hi: "?x < 4294967296"
    using assms unfolding x by simp_all
  have "38636 \<le> \<lfloor>?x\<rfloor>" using lo by (simp add: le_floor_iff)
  then show ?thesis
    using lo hi by (simp add: dac_value_def c_trunc_def Let_def)
qed

lemma waveform_value_SINE_bounds:
  assumes "0 \<le> a"
  shows "off \<le> waveform_value SINE a f off t \<and> waveform_value SINE a f off t \<le> off + a"
proof -
  let ?s = "sin (2 * M_PI * f * t)"
  have b: "0 \<le> ?s / 2 + 0.5" "?s / 2 + 0.5 \<le> 1"
    using sin_ge_minus_one [of "2 * M_PI * f * t"] sin_le_one [of "2 * M_PI * f * t"]
    by linarith+
  have "0 \<le> a * (?s / 2 + 0.5)"
    using assms b(1) by (rule mult_nonneg_nonneg)
  moreover have "a * (?s / 2 + 0.5) \<le> a * 1"
    using b(2) assms by (rule mult_left_mono)
  ultimately show ?thesis by simp
qed

lemma generate_waveform_default_above_255:
  "\<exists>n. snd (fst (generate_waveform ct irq_init)) = Some n \<and> 255 < n"
proof -
  let ?v = "waveform_value SINE 1000 10 500 (real (unat (ct - 0)) / 1000000)"
  have "500 \<le> ?v \<and> ?v \<le> 500 + 1000"
    by (rule waveform_value_SINE_bounds) simp
  then obtain n where "dac_value ?v = Some n" "38636 \<le> n"
    using dac_value_above_255 [of ?v] by auto
  then show ?thesis
    by (intro exI [of _ n]) (simp add: generate_waveform_def irq_init_def Let_def)
qed

text \<open>
  Claim C3 says that the quantizer saturates: a code below 0 gives 0 and a code above 255
  gives 255. The polling variant does so (lemmas \<open>poll_dac_value_low\<close>,
  \<open>poll_dac_value_high\<close> and \<open>poll_dac_value_mid\<close>). \<^verbatim>\<open>generate_waveform\<close> of main.c
  converts \<^verbatim>\<open>(value / VREF) * DAC_MAX_VALUE\<close> to \<^verbatim>\<open>uint\<close> with no bound: in the initial state
  with a time step of 0 the sample is 1000 and the DAC code is 77272 (with the default
  parameters the code is above 255 at every time, lemma
  \<open>generate_waveform_default_above_255\<close>). The polling variant, in its initial state,
  gives the saturated code 255.
\<close>

theorem dac_value_not_saturated:
  "fst (generate_waveform 0 irq_init) = (1000, Some 77272) \<and>
   poll_dac_value (poll_value SINE (amplitude_p poll_init) (frequency_p poll_init)
     (dcOffset poll_init) 0) = 255"
proof -
  have "waveform_value SINE 1000 10 500 0 = 1000"
    by simp
  then have "fst (generate_waveform 0 irq_init) = (1000, Some 77272)"
    using dac_value_1000 by (simp add: generate_waveform_def irq_init_def Let_def)
  moreover have "poll_dac_value (poll_value SINE (amplitude_p poll_init) (frequency_p poll_init)
     (dcOffset poll_init) 0) = 255"
    by (rule poll_dac_value_high)
       (simp add: scaled_value_def poll_init_def AMPLITUDE_MIN_def AMPLITUDE_MAX_def)
  ultimately show ?thesis by simp
qed

section \<open>The samples of the sine and the square wave\<close>












end
